theory Spec2Isabelle
  imports Complex_Main "HOL-Library.Sublist" "HOL-Library.Char_ord" "HOL-Library.List_Lexorder"
begin

section \<open>Values, dictionaries and errors\<close>

text \<open>
  Python strings are modelled as \<^typ>\<open>string\<close>: lists of characters whose code points lie
  below 256. Dynamically typed values (\<open>Any\<close>) that the modelled functions store, compare for
  truthiness or format are the scalars of \<open>pyval\<close>. A \<open>dict\<close> is an association list in
  insertion order.
\<close>

datatype pyval = PNone | PBool bool | PInt int | PStr string

type_synonym 'v pydict = "(string \<times> 'v) list"

text \<open>\<open>d.get(key)\<close> and \<open>d.get(key, default)\<close>.\<close>

definition dict_get :: "'v pydict \<Rightarrow> string \<Rightarrow> 'v option" where
  "dict_get d key = map_of d key"

definition dict_get_default :: "'v pydict \<Rightarrow> string \<Rightarrow> 'v \<Rightarrow> 'v" where
  "dict_get_default d key dflt = (case map_of d key of None \<Rightarrow> dflt | Some v \<Rightarrow> v)"

text \<open>\<open>d[key] = v\<close>: an existing key keeps its position, a new key goes last.\<close>

fun dict_set :: "string \<Rightarrow> 'v \<Rightarrow> 'v pydict \<Rightarrow> 'v pydict" where
  "dict_set key v [] = [(key, v)]"
| "dict_set key v ((k, w) # d) =
     (if k = key then (k, v) # d else (k, w) # dict_set key v d)"

text \<open>The exception classes of \<open>errors.py\<close>, each carrying its message.\<close>

datatype error =
    ServiceNowMCPError string
  | AuthError string
  | ForbiddenError string
  | NotFoundError string
  | QuerySafetyError string
  | WriteGatingError string
  | PolicyError string
  | ServerError string
  | IndexError string

section \<open>Configuration (\<open>config.py\<close>)\<close>

record settings =
  servicenow_env :: string
  allow_writes_in_prod :: bool
  max_row_limit :: int
  large_table_names_csv :: string

text \<open>\<open>str.split(",")\<close>: one piece more than there are commas.\<close>

fun split_comma :: "string \<Rightarrow> string list" where
  "split_comma [] = [[]]"
| "split_comma (c # cs) =
     (if c = CHR '','' then [] # split_comma cs
      else (case split_comma cs of
              [] \<Rightarrow> [[c]]
            | p # ps \<Rightarrow> (c # p) # ps))"

text \<open>\<open>str.isspace\<close> on one character, for the code points below 256.\<close>

definition is_space :: "char \<Rightarrow> bool" where
  "is_space c =
     (let n = (of_char c :: nat)
      in (9 \<le> n \<and> n \<le> 13) \<or> (28 \<le> n \<and> n \<le> 32) \<or> n = 133 \<or> n = 160)"

definition strip :: "string \<Rightarrow> string" where
  "strip s = rev (dropWhile is_space (rev (dropWhile is_space s)))"

definition large_table_names :: "settings \<Rightarrow> string list" where
  "large_table_names s =
     map strip (filter (\<lambda>t. strip t \<noteq> []) (split_comma (large_table_names_csv s)))"

definition is_production :: "settings \<Rightarrow> bool" where
  "is_production s = (servicenow_env s = ''prod'')"

section \<open>Policy engine (\<open>policy.py\<close>)\<close>

definition DENIED_TABLES :: "string set" where
  "DENIED_TABLES =
     {''sys_user_has_password'', ''oauth_credential'', ''oauth_entity'', ''sys_certificate'',
      ''sys_ssh_key'', ''sys_credentials'', ''discovery_credentials'', ''sys_user_token''}"

definition SENSITIVE_PATTERNS :: "string list" where
  "SENSITIVE_PATTERNS =
     [''password'', ''token'', ''secret'', ''credential'', ''api_key'', ''private_key'']"

definition MASK_VALUE :: pyval where
  "MASK_VALUE = PStr ''***MASKED***''"

definition DATE_FIELD_PATTERNS :: "string list" where
  "DATE_FIELD_PATTERNS =
     [''sys_created_on'', ''sys_updated_on'', ''opened_at'', ''closed_at'', ''sys_recorded_at'']"

definition quote :: "string \<Rightarrow> string" where
  "quote s = [CHR 0x27] @ s @ [CHR 0x27]"

definition check_table_access :: "string \<Rightarrow> error + unit" where
  "check_table_access table =
     (if table \<in> DENIED_TABLES
      then Inl (PolicyError (''Access to table '' @ quote table @ '' is denied by policy''))
      else Inr ())"

text \<open>
  \<open>re.compile(p, re.IGNORECASE).search(s)\<close> for a pattern \<open>p\<close> of literal lower-case
  characters: some substring of \<open>s\<close> equals \<open>p\<close> up to the case of its letters.
\<close>

definition to_lower :: "char \<Rightarrow> char" where
  "to_lower c =
     (let n = (of_char c :: nat)
      in if 65 \<le> n \<and> n \<le> 90 then char_of (n + 32) else c)"

definition search_ignorecase :: "string \<Rightarrow> string \<Rightarrow> bool" where
  "search_ignorecase pattern s = sublist pattern (map to_lower s)"

definition is_sensitive_field :: "string \<Rightarrow> bool" where
  "is_sensitive_field field_name =
     list_ex (\<lambda>pattern. search_ignorecase pattern field_name) SENSITIVE_PATTERNS"

text \<open>\<open>field in query\<close> on strings is the substring test.\<close>

definition has_date_filter :: "string \<Rightarrow> bool" where
  "has_date_filter query = list_ex (\<lambda>field. sublist field query) DATE_FIELD_PATTERNS"

text \<open>The returned dictionary \<open>{"limit": effective_limit}\<close> has integer values.\<close>

definition enforce_query_safety ::
  "string \<Rightarrow> string \<Rightarrow> int option \<Rightarrow> settings \<Rightarrow> error + int pydict" where
  "enforce_query_safety table query limit s =
     (case check_table_access table of
        Inl e \<Rightarrow> Inl e
      | Inr _ \<Rightarrow>
          (let effective_limit =
                 (case limit of
                    None \<Rightarrow> max_row_limit s
                  | Some l \<Rightarrow> if l > max_row_limit s then max_row_limit s else l)
           in if table \<in> set (large_table_names s) \<and> \<not> has_date_filter query
              then Inl (QuerySafetyError
                     (''Table '' @ quote table @
                      '' is large and requires a date-bounded filter '' @
                      ''(e.g., sys_created_on>=YYYY-MM-DD). '' @
                      ''Add a date field constraint to your query.''))
              else Inr [(''limit'', effective_limit)]))"

definition can_write :: "string \<Rightarrow> settings \<Rightarrow> bool \<Rightarrow> bool" where
  "can_write table s override =
     (if table \<in> DENIED_TABLES then False
      else if is_production s \<and> \<not> override then False
      else True)"

text \<open>
  \<open>mask_sensitive_fields\<close> allocates a new dictionary and assigns into it. To tell the copy
  from the original, dictionaries live in a heap: a list of objects addressed by position.
  \<open>dict(record)\<close> appends a shallow copy and returns its address; \<open>masked[key] = MASK_VALUE\<close>
  updates the object at the address \<open>masked\<close>. The \<open>for\<close> loop runs over the keys of the
  copy, which no assignment to an existing key changes.
\<close>

type_synonym heap = "pyval pydict list"

definition dict_copy :: "heap \<Rightarrow> nat \<Rightarrow> heap \<times> nat" where
  "dict_copy h r = (h @ [h ! r], length h)"

fun mask_loop :: "string list \<Rightarrow> nat \<Rightarrow> heap \<Rightarrow> heap" where
  "mask_loop [] masked h = h"
| "mask_loop (key # keys) masked h =
     mask_loop keys masked
       (if is_sensitive_field key then h[masked := dict_set key MASK_VALUE (h ! masked)] else h)"

definition mask_sensitive_fields :: "heap \<Rightarrow> nat \<Rightarrow> heap \<times> nat" where
  "mask_sensitive_fields h record =
     (let (h1, masked) = dict_copy h record;
          h2 = mask_loop (map fst (h1 ! masked)) masked h1
      in (h2, masked))"

section \<open>Workflow state (\<open>state.py\<close>)\<close>

subsection \<open>PreviewTokenStore\<close>

text \<open>
  The store is passed explicitly and returned updated. The two effects of the class are
  inputs of the model: \<open>now\<close> is the reading of \<open>time.monotonic()\<close> at the call and \<open>token\<close>
  is the string \<open>uuid.uuid4()\<close> produces in \<open>create\<close>.

  Clock readings are double-precision floats. Every double is a real number, so a reading
  has type \<^typ>\<open>real\<close>; but \<open>-\<close> on doubles rounds its result, and the rounded difference of
  two readings can differ from their exact difference. The subtraction of doubles is
  therefore a parameter \<open>fsub\<close> of the model, about which nothing is assumed: \<open>fsub a b\<close>
  stands for what the machine computes for \<open>a - b\<close>. The age of an entry is this computed
  difference. Python compares a float with an integer exactly, so the comparison with the
  integer \<open>_ttl\<close> is the comparison of real numbers.
\<close>

type_synonym float_sub = "real \<Rightarrow> real \<Rightarrow> real"

record 'p token_entry =
  payload :: 'p
  created_at :: real

record 'p preview_token_store =
  ttl :: int
  store :: "string \<rightharpoonup> 'p token_entry"

definition PreviewTokenStore_init :: "int \<Rightarrow> 'p preview_token_store" where
  "PreviewTokenStore_init ttl_seconds = \<lparr>ttl = ttl_seconds, store = Map.empty\<rparr>"

definition PreviewTokenStore_create ::
  "'p preview_token_store \<Rightarrow> string \<Rightarrow> real \<Rightarrow> 'p \<Rightarrow> string \<times> 'p preview_token_store" where
  "PreviewTokenStore_create s token now p =
     (token, s\<lparr>store := (store s)(token \<mapsto> \<lparr>payload = p, created_at = now\<rparr>)\<rparr>)"

definition is_expired ::
  "float_sub \<Rightarrow> 'p preview_token_store \<Rightarrow> real \<Rightarrow> 'p token_entry \<Rightarrow> bool" where
  "is_expired fsub s now entry = (fsub now (created_at entry) > real_of_int (ttl s))"

definition PreviewTokenStore_get ::
  "float_sub \<Rightarrow> 'p preview_token_store \<Rightarrow> real \<Rightarrow> string
     \<Rightarrow> 'p option \<times> 'p preview_token_store" where
  "PreviewTokenStore_get fsub s now token =
     (case store s token of
        None \<Rightarrow> (None, s)
      | Some entry \<Rightarrow>
          if is_expired fsub s now entry then (None, s\<lparr>store := (store s)(token := None)\<rparr>)
          else (Some (payload entry), s))"

definition PreviewTokenStore_consume ::
  "float_sub \<Rightarrow> 'p preview_token_store \<Rightarrow> real \<Rightarrow> string
     \<Rightarrow> 'p option \<times> 'p preview_token_store" where
  "PreviewTokenStore_consume fsub s now token =
     (case store s token of
        None \<Rightarrow> (None, s)
      | Some entry \<Rightarrow>
          if is_expired fsub s now entry then (None, s\<lparr>store := (store s)(token := None)\<rparr>)
          else (Some (payload entry), s\<lparr>store := (store s)(token := None)\<rparr>))"

text \<open>
  A history of calls on one store: each call with the clock reading at which it runs.
  \<open>run_calls\<close> returns what each call returned (\<open>create\<close> returns its token and has no
  payload result).
\<close>

datatype 'p call = Create string 'p | Get string | Consume string

fun apply_call ::
  "float_sub \<Rightarrow> 'p preview_token_store \<Rightarrow> real \<times> 'p call
     \<Rightarrow> 'p option \<times> 'p preview_token_store" where
  "apply_call fsub s (now, Create token p) =
     (None, snd (PreviewTokenStore_create s token now p))"
| "apply_call fsub s (now, Get token) = PreviewTokenStore_get fsub s now token"
| "apply_call fsub s (now, Consume token) = PreviewTokenStore_consume fsub s now token"

fun run_calls ::
  "float_sub \<Rightarrow> 'p preview_token_store \<Rightarrow> (real \<times> 'p call) list \<Rightarrow> 'p option list" where
  "run_calls fsub s [] = []"
| "run_calls fsub s (c # cs) =
     fst (apply_call fsub s c) # run_calls fsub (snd (apply_call fsub s c)) cs"

definition successful_consumes ::
  "float_sub \<Rightarrow> string \<Rightarrow> 'p preview_token_store \<Rightarrow> (real \<times> 'p call) list \<Rightarrow> nat" where
  "successful_consumes fsub token s cs =
     length (filter (\<lambda>(c, r). snd c = Consume token \<and> r \<noteq> None)
               (zip cs (run_calls fsub s cs)))"

subsection \<open>SeededRecordTracker\<close>

record tracked =
  table :: string
  sys_ids :: "string list"

type_synonym seeded_record_tracker = "string \<rightharpoonup> tracked list"

definition SeededRecordTracker_init :: seeded_record_tracker where
  "SeededRecordTracker_init = Map.empty"

definition SeededRecordTracker_track ::
  "seeded_record_tracker \<Rightarrow> string \<Rightarrow> string \<Rightarrow> string list \<Rightarrow> seeded_record_tracker" where
  "SeededRecordTracker_track st tag tbl ids =
     (case st tag of
        None \<Rightarrow> st(tag \<mapsto> [] @ [\<lparr>table = tbl, sys_ids = ids\<rparr>])
      | Some entries \<Rightarrow> st(tag \<mapsto> entries @ [\<lparr>table = tbl, sys_ids = ids\<rparr>]))"

definition SeededRecordTracker_get ::
  "seeded_record_tracker \<Rightarrow> string \<Rightarrow> tracked list option" where
  "SeededRecordTracker_get st tag =
     (case st tag of None \<Rightarrow> None | Some entries \<Rightarrow> Some entries)"

definition SeededRecordTracker_remove ::
  "seeded_record_tracker \<Rightarrow> string \<Rightarrow> seeded_record_tracker" where
  "SeededRecordTracker_remove st tag = st(tag := None)"

section \<open>Investigations\<close>

subsection \<open>Shared: values, the client, grouping\<close>

text \<open>Truthiness and \<open>str()\<close> of the scalar values, as \<open>if not table\<close> and f-strings use them.\<close>

fun truthy :: "pyval \<Rightarrow> bool" where
  "truthy PNone = False"
| "truthy (PBool b) = b"
| "truthy (PInt i) = (i \<noteq> 0)"
| "truthy (PStr s) = (s \<noteq> [])"

function string_of_nat :: "nat \<Rightarrow> string" where
  "string_of_nat n =
     (if n < 10 then [char_of (48 + n)]
      else string_of_nat (n div 10) @ [char_of (48 + n mod 10)])"
  by pat_completeness auto
termination
  by (relation "measure id") auto

fun py_str :: "pyval \<Rightarrow> string" where
  "py_str PNone = ''None''"
| "py_str (PBool b) = (if b then ''True'' else ''False'')"
| "py_str (PInt i) = (if i < 0 then ''-'' @ string_of_nat (nat (- i)) else string_of_nat (nat i))"
| "py_str (PStr s) = s"

text \<open>
  The records the Table API returns are dictionaries with string values.
  \<open>client.query_records(table, query, fields=..., limit=..., order_by=...)\<close> is the one call
  the two investigations make; the client is a parameter of the model, and a call either
  raises one of the errors or returns \<open>{"records": ..., "count": ...}\<close>.
\<close>

type_synonym snow_record = "string pydict"

record query_result =
  records :: "snow_record list"
  total_count :: int

type_synonym client =
  "string \<Rightarrow> string \<Rightarrow> string list \<Rightarrow> pyval \<Rightarrow> string option \<Rightarrow> error + query_result"

text \<open>
  \<open>groups = defaultdict(list)\<close> with \<open>groups[key].append(x)\<close> for each \<open>x\<close>: a new key is
  added last, an existing key's list grows at its end.
\<close>

fun group_append :: "'k \<Rightarrow> 'v \<Rightarrow> ('k \<times> 'v list) list \<Rightarrow> ('k \<times> 'v list) list" where
  "group_append k v [] = [(k, [v])]"
| "group_append k v ((k', vs) # g) =
     (if k' = k then (k', vs @ [v]) # g else (k', vs) # group_append k v g)"

definition group_by :: "('v \<Rightarrow> 'k) \<Rightarrow> 'v list \<Rightarrow> ('k \<times> 'v list) list" where
  "group_by key xs = fold (\<lambda>x g. group_append (key x) x g) xs []"

record finding =
  category :: string

record 'f investigation_result =
  investigation :: string
  finding_count :: nat
  findings :: "'f list"

subsection \<open>\<open>acl_conflicts.run\<close>\<close>

record acl_entry =
  sys_id :: string
  operation :: string
  condition :: string
  active :: string

record acl_finding = finding +
  name :: string
  count :: nat
  acls :: "acl_entry list"
  detail :: string

record acl_conflicts_result = "acl_finding investigation_result" +
  error_text :: "string option"
  checked_table :: "pyval option"
  total_acls_checked :: "nat option"

definition acl_conflict_finding :: "string \<Rightarrow> snow_record list \<Rightarrow> acl_finding" where
  "acl_conflict_finding nm grp =
     \<lparr>category = ''acl_conflict'',
      name = nm,
      count = length grp,
      acls = map (\<lambda>a. \<lparr>sys_id = dict_get_default a ''sys_id'' '''',
                        operation = dict_get_default a ''operation'' '''',
                        condition = dict_get_default a ''condition'' '''',
                        active = dict_get_default a ''active'' ''''\<rparr>) grp,
      detail = ''ACL '' @ quote nm @ '' has '' @ string_of_nat (length grp) @
               '' overlapping rules with different conditions''\<rparr>"

fun acl_conflict_findings :: "(string \<times> snow_record list) list \<Rightarrow> acl_finding list" where
  "acl_conflict_findings [] = []"
| "acl_conflict_findings ((nm, grp) # groups) =
     (if length grp \<ge> 2 then [acl_conflict_finding nm grp] else []) @
     acl_conflict_findings groups"

definition acl_conflicts_run :: "client \<Rightarrow> pyval pydict \<Rightarrow> error + acl_conflicts_result" where
  "acl_conflicts_run client params =
     (let tbl = dict_get_default params ''table'' PNone
      in if \<not> truthy tbl
         then Inr \<lparr>investigation = ''acl_conflicts'', finding_count = 0, findings = [],
                   error_text = Some ''Missing required parameter: table'',
                   checked_table = None, total_acls_checked = None\<rparr>
         else
           (case client ''sys_security_acl'' (''nameSTARTSWITH'' @ py_str tbl)
                   [''sys_id'', ''name'', ''operation'', ''condition'', ''script'', ''active'']
                   (PInt 500) None of
              Inl e \<Rightarrow> Inl e
            | Inr acl_result \<Rightarrow>
                (let acls = records acl_result;
                     groups = group_by (\<lambda>acl. dict_get_default acl ''name'' '''') acls;
                     fs = acl_conflict_findings groups
                 in Inr \<lparr>investigation = ''acl_conflicts'', finding_count = length fs,
                          findings = fs, error_text = None, checked_table = Some tbl,
                          total_acls_checked = Some (length acls)\<rparr>)))"

subsection \<open>\<open>error_analysis.run\<close>\<close>

record error_cluster = finding +
  source :: string
  frequency :: nat
  first_seen :: string
  last_seen :: string
  sample_messages :: "string list"
  element_id :: string

record error_analysis_result = "error_cluster investigation_result" +
  params_echo :: "pyval pydict"
  total_errors :: nat

text \<open>
  \<open>min\<close> and \<open>max\<close> of a list with first element \<open>x\<close> and rest \<open>xs\<close> keep the first smallest
  (largest) element; strings compare lexicographically by code point.
\<close>

definition py_min :: "'a::linorder \<Rightarrow> 'a list \<Rightarrow> 'a" where
  "py_min x xs = fold (\<lambda>y m. if y < m then y else m) xs x"

definition py_max :: "'a::linorder \<Rightarrow> 'a list \<Rightarrow> 'a" where
  "py_max x xs = fold (\<lambda>y m. if y > m then y else m) xs x"

text \<open>One finding of the loop; \<open>entries[0]\<close> raises \<open>IndexError\<close> on an empty list.\<close>

definition error_cluster_finding :: "string \<Rightarrow> snow_record list \<Rightarrow> error + error_cluster" where
  "error_cluster_finding src entries =
     (let timestamps = map (\<lambda>e. dict_get_default e ''sys_created_on'' '''') entries;
          sample_msgs = map (\<lambda>e. dict_get_default e ''message'' '''') (take 3 entries)
      in case entries of
           [] \<Rightarrow> Inl (IndexError ''list index out of range'')
         | e0 # _ \<Rightarrow>
             Inr \<lparr>category = ''error_cluster'',
                  source = src,
                  frequency = length entries,
                  first_seen = (case timestamps of [] \<Rightarrow> '''' | t # ts \<Rightarrow> py_min t ts),
                  last_seen = (case timestamps of [] \<Rightarrow> '''' | t # ts \<Rightarrow> py_max t ts),
                  sample_messages = sample_msgs,
                  element_id = ''syslog:'' @ dict_get_default e0 ''sys_id'' ''''\<rparr>)"

fun error_cluster_findings ::
  "(string \<times> snow_record list) list \<Rightarrow> error + error_cluster list" where
  "error_cluster_findings [] = Inr []"
| "error_cluster_findings ((src, entries) # clusters) =
     (case error_cluster_finding src entries of
        Inl e \<Rightarrow> Inl e
      | Inr f \<Rightarrow>
          (case error_cluster_findings clusters of
             Inl e \<Rightarrow> Inl e
           | Inr fs \<Rightarrow> Inr (f # fs)))"

definition error_analysis_run :: "client \<Rightarrow> pyval pydict \<Rightarrow> error + error_analysis_result" where
  "error_analysis_run client params =
     (let hours = dict_get_default params ''hours'' (PInt 24);
          source_filter = dict_get_default params ''source'' PNone;
          lim = dict_get_default params ''limit'' (PInt 100);
          query = ''level=0'' @
                  (if truthy source_filter then ''^sourceLIKE'' @ py_str source_filter else '''')
      in case client ''syslog'' query
                [''sys_id'', ''message'', ''source'', ''level'', ''sys_created_on'']
                lim (Some ''sys_created_on'') of
           Inl e \<Rightarrow> Inl e
         | Inr syslog_result \<Rightarrow>
             (let logs = records syslog_result;
                  clusters = group_by (\<lambda>log. dict_get_default log ''source'' ''unknown'') logs
              in case error_cluster_findings
                        (sort_key (\<lambda>x. - int (length (snd x))) clusters) of
                   Inl e \<Rightarrow> Inl e
                 | Inr fs \<Rightarrow>
                     Inr \<lparr>investigation = ''error_analysis'', finding_count = length fs,
                          findings = fs,
                          params_echo = [(''hours'', hours), (''source'', source_filter),
                                         (''limit'', lim)],
                          total_errors = length logs\<rparr>))"

section \<open>Concrete inputs\<close>

text \<open>The settings a default installation has, the same in production, and a
  configuration that lists a denied table among the large ones.\<close>

definition default_settings :: settings where
  "default_settings =
     \<lparr>servicenow_env = ''dev'', allow_writes_in_prod = False, max_row_limit = 100,
      large_table_names_csv = ''syslog,sys_audit,sys_log_transaction,sys_email_log''\<rparr>"

definition prod_settings :: settings where
  "prod_settings = default_settings\<lparr>servicenow_env := ''prod''\<rparr>"

definition denied_large_settings :: settings where
  "denied_large_settings =
     default_settings\<lparr>large_table_names_csv := ''syslog, sys_user_token''\<rparr>"

text \<open>A token store with the default lifetime of 300 seconds, a payload, and the store
  after \<open>create\<close> returned the token \<open>tok-1\<close> at clock reading 0.\<close>

definition example_payload :: "string pydict" where
  "example_payload = [(''table'', ''incident''), (''sys_id'', ''abc'')]"

definition fresh_store :: "string pydict preview_token_store" where
  "fresh_store = PreviewTokenStore_init 300"

definition store_with_token :: "string pydict preview_token_store" where
  "store_with_token = snd (PreviewTokenStore_create fresh_store ''tok-1'' 0 example_payload)"

definition example_calls :: "(real \<times> string pydict call) list" where
  "example_calls =
     [(10, Get ''tok-1''), (20, Consume ''tok-1''), (30, Consume ''tok-1''),
      (40, Create ''tok-2'' example_payload), (50, Consume ''tok-1''), (60, Get ''tok-1'')]"

text \<open>
  The subtraction of doubles where it is used on the concrete inputs. Between 256 and 512
  neighbouring doubles are \<open>1 / 2 ^ 44\<close> apart, so a difference in that range is rounded to
  the nearest multiple of \<open>1 / 2 ^ 44\<close>; a difference below 512 that already is such a multiple,
  like the integers used here, is a double and is returned as it is. No input used here
  lies halfway between two doubles.

  \<open>reading_0_1\<close> and \<open>reading_300_1\<close> are the doubles that the literals \<open>0.1\<close> and \<open>300.1\<close>
  denote. Their exact difference is greater than 300; their difference as doubles is 300.
\<close>

definition double_sub :: float_sub where
  "double_sub a b = real_of_int (round ((a - b) * 2 ^ 44)) / 2 ^ 44"

definition reading_0_1 :: real where
  "reading_0_1 = 3602879701896397 / 2 ^ 55"

definition reading_300_1 :: real where
  "reading_300_1 = 2639707515964621 / 2 ^ 43"

definition store_created_at_0_1 :: "string pydict preview_token_store" where
  "store_created_at_0_1 =
     snd (PreviewTokenStore_create fresh_store ''tok-1'' reading_0_1 example_payload)"

text \<open>The ledger of the specification's example: tag \<open>x\<close> tracked in two tables.\<close>

definition example_tracker :: seeded_record_tracker where
  "example_tracker =
     SeededRecordTracker_track
       (SeededRecordTracker_track SeededRecordTracker_init ''x'' ''incident'' [''a''])
       ''x'' ''problem'' [''b'']"

text \<open>A heap with one record that has two sensitive fields, and the heap after masking it.\<close>

definition example_heap :: heap where
  "example_heap =
     [[(''name'', PStr ''bob''), (''User_Password'', PInt 42), (''api_key'', PNone),
       (''active'', PBool True)]]"

definition example_masked_heap :: heap where
  "example_masked_heap =
     example_heap @
       [[(''name'', PStr ''bob''), (''User_Password'', MASK_VALUE), (''api_key'', MASK_VALUE),
         (''active'', PBool True)]]"

text \<open>A client that answers every query with the given records, and the parameters
  \<open>{"table": "incident"}\<close>.\<close>

definition fixed_client :: "snow_record list \<Rightarrow> client" where
  "fixed_client recs =
     (\<lambda>tbl query fields lim order_by. Inr \<lparr>records = recs, total_count = int (length recs)\<rparr>)"

definition incident_params :: "pyval pydict" where
  "incident_params = [(''table'', PStr ''incident'')]"

text \<open>Two ACLs named \<open>incident.read\<close> with different conditions, two with the same
  condition, and two with distinct names.\<close>

definition conflicting_acls :: "snow_record list" where
  "conflicting_acls =
     [[(''sys_id'', ''acl1''), (''name'', ''incident.read''), (''operation'', ''read''),
       (''condition'', ''active=true''), (''script'', ''''), (''active'', ''true'')],
      [(''sys_id'', ''acl2''), (''name'', ''incident.read''), (''operation'', ''read''),
       (''condition'', ''priority=1''), (''script'', ''''), (''active'', ''true'')]]"

definition same_condition_acls :: "snow_record list" where
  "same_condition_acls =
     [[(''sys_id'', ''acl1''), (''name'', ''incident.read''), (''operation'', ''read''),
       (''condition'', ''active=true''), (''script'', ''''), (''active'', ''true'')],
      [(''sys_id'', ''acl2''), (''name'', ''incident.read''), (''operation'', ''read''),
       (''condition'', ''active=true''), (''script'', ''''), (''active'', ''true'')]]"

definition distinct_name_acls :: "snow_record list" where
  "distinct_name_acls =
     [[(''sys_id'', ''acl1''), (''name'', ''incident.read''), (''operation'', ''read''),
       (''condition'', ''''), (''script'', ''''), (''active'', ''true'')],
      [(''sys_id'', ''acl2''), (''name'', ''incident.write''), (''operation'', ''write''),
       (''condition'', ''''), (''script'', ''''), (''active'', ''true'')]]"

text \<open>The syslog entries of the specification's example.\<close>

definition example_logs :: "snow_record list" where
  "example_logs =
     [[(''source'', ''A''), (''sys_created_on'', ''1'')],
      [(''source'', ''A''), (''sys_created_on'', ''2'')],
      [(''source'', ''B''), (''sys_created_on'', ''3'')]]"

section \<open>Properties of the policy engine\<close>

lemma incident_not_denied: "''incident'' \<notin> DENIED_TABLES"
  by (simp add: DENIED_TABLES_def)

lemma syslog_not_denied: "''syslog'' \<notin> DENIED_TABLES"
  by (simp add: DENIED_TABLES_def)

lemma oauth_credential_denied: "''oauth_credential'' \<in> DENIED_TABLES"
  by (simp add: DENIED_TABLES_def)

lemma sys_user_token_denied: "''sys_user_token'' \<in> DENIED_TABLES"
  by (simp add: DENIED_TABLES_def)

lemma large_table_names_default:
  "large_table_names default_settings =
     [''syslog'', ''sys_audit'', ''sys_log_transaction'', ''sys_email_log'']"
  by code_simp

lemma large_table_names_denied_large:
  "large_table_names denied_large_settings = [''syslog'', ''sys_user_token'']"
  by code_simp

lemma has_date_filter_iff:
  "has_date_filter query \<longleftrightarrow>
     (\<exists>field\<in>set DATE_FIELD_PATTERNS. \<exists>ps ss. query = ps @ field @ ss)"
  by (simp add: has_date_filter_def list_ex_iff sublist_def)

lemma no_date_filter_empty: "\<not> has_date_filter ''''"
  by (simp add: has_date_filter_def DATE_FIELD_PATTERNS_def)

lemma no_date_filter_active: "has_date_filter ''active=true'' = False"
  by code_simp

lemma date_filter_created: "has_date_filter ''sys_created_on>2024'' = True"
  by code_simp

lemma enforce_allowed_table:
  "t \<notin> DENIED_TABLES \<Longrightarrow>
     enforce_query_safety t query limit s =
       (if t \<in> set (large_table_names s) \<and> \<not> has_date_filter query
        then Inl (QuerySafetyError
                     (''Table '' @ quote t @
                      '' is large and requires a date-bounded filter '' @
                      ''(e.g., sys_created_on>=YYYY-MM-DD). '' @
                      ''Add a date field constraint to your query.''))
        else Inr [(''limit'', case limit of None \<Rightarrow> max_row_limit s
                              | Some l \<Rightarrow> if l > max_row_limit s then max_row_limit s else l)])"
  by (simp add: enforce_query_safety_def check_table_access_def)

text \<open>
  C3. A table on the deny list is refused everywhere: \<open>check_table_access\<close> raises
  \<open>PolicyError\<close>, \<open>enforce_query_safety\<close> raises the same error whatever the filter, the
  limit (given or not) and the settings are, and \<open>can_write\<close> is false for all settings and
  for both values of the override.
\<close>

theorem denied_table_rejected:
  "t \<in> DENIED_TABLES \<Longrightarrow>
     check_table_access t =
       Inl (PolicyError (''Access to table '' @ quote t @ '' is denied by policy''))
     \<and> enforce_query_safety t query limit s =
       Inl (PolicyError (''Access to table '' @ quote t @ '' is denied by policy''))
     \<and> can_write t s override = False"
  by (simp add: check_table_access_def enforce_query_safety_def can_write_def)

theorem denied_table_rejected_witness:
  "check_table_access ''oauth_credential'' =
       Inl (PolicyError ''Access to table 'oauth_credential' is denied by policy'')
   \<and> enforce_query_safety ''oauth_credential'' ''sys_created_on>2024'' (Some 1) prod_settings
       = Inl (PolicyError ''Access to table 'oauth_credential' is denied by policy'')
   \<and> can_write ''oauth_credential'' prod_settings True = False"
  using denied_table_rejected
          [OF oauth_credential_denied, of "''sys_created_on>2024''" "Some 1" prod_settings True]
  by (simp add: quote_def)

text \<open>
  C9. For a table that is not on the deny list, \<open>can_write\<close> is false in production without
  the override, true in production with it, and true outside production whatever the
  override is: it is true exactly when the environment is not production or the override
  was requested. It is a total boolean function, so it has no failing branch.
\<close>

theorem can_write_allowed_table:
  "t \<notin> DENIED_TABLES \<Longrightarrow> can_write t s override = (\<not> is_production s \<or> override)"
  by (simp add: can_write_def)

theorem can_write_allowed_table_witness:
  "can_write ''incident'' prod_settings False = False
   \<and> can_write ''incident'' prod_settings True = True
   \<and> can_write ''incident'' default_settings False = True"
  using can_write_allowed_table [OF incident_not_denied, of prod_settings False]
        can_write_allowed_table [OF incident_not_denied, of prod_settings True]
        can_write_allowed_table [OF incident_not_denied, of default_settings False]
  by (simp add: is_production_def prod_settings_def default_settings_def)

text \<open>
  C4, as stated, fails: a table that is not on the deny list can still be a large table
  queried without a date field, and then the call raises instead of returning a limit.
  With the default settings, \<open>syslog\<close>, the empty filter and the limit 5 (which is below
  the maximum of 100) the result is \<open>QuerySafetyError\<close>.
\<close>

theorem effective_limit_claim_counterexample:
  "\<not> (\<forall>t query l s. t \<notin> DENIED_TABLES \<longrightarrow> l \<le> max_row_limit s \<longrightarrow>
        enforce_query_safety t query (Some l) s = Inr [(''limit'', l)])"
proof
  assume a: "\<forall>t query l s. t \<notin> DENIED_TABLES \<longrightarrow> l \<le> max_row_limit s \<longrightarrow>
        enforce_query_safety t query (Some l) s = Inr [(''limit'', l)]"
  have m: "(5::int) \<le> max_row_limit default_settings"
    by (simp add: default_settings_def)
  from a syslog_not_denied m
  have "enforce_query_safety ''syslog'' '''' (Some 5) default_settings = Inr [(''limit'', 5)]"
    by blast
  moreover have "isl (enforce_query_safety ''syslog'' '''' (Some 5) default_settings)"
    using no_date_filter_empty
    by (simp add: enforce_allowed_table [OF syslog_not_denied] large_table_names_default)
  ultimately show False by simp
qed

text \<open>
  C4, amended. For a table that is not on the deny list and that is either not a large
  table or queried with a date field in the filter, \<open>enforce_query_safety\<close> returns the
  limit: the maximum when no limit is requested, the maximum when the requested limit
  exceeds it, the requested limit otherwise; and the returned limit is never greater than
  a requested one.
\<close>

theorem effective_limit_capped:
  "t \<notin> DENIED_TABLES \<Longrightarrow> t \<notin> set (large_table_names s) \<or> has_date_filter query \<Longrightarrow>
     enforce_query_safety t query None s = Inr [(''limit'', max_row_limit s)]
     \<and> (l > max_row_limit s \<longrightarrow>
          enforce_query_safety t query (Some l) s = Inr [(''limit'', max_row_limit s)])
     \<and> (l \<le> max_row_limit s \<longrightarrow>
          enforce_query_safety t query (Some l) s = Inr [(''limit'', l)])
     \<and> (\<exists>e. enforce_query_safety t query (Some l) s = Inr [(''limit'', e)] \<and> e \<le> l)"
  by (auto simp add: enforce_allowed_table)

theorem effective_limit_capped_witness:
  "enforce_query_safety ''incident'' ''active=true'' None default_settings = Inr [(''limit'', 100)]
   \<and> enforce_query_safety ''incident'' ''active=true'' (Some 500) default_settings
       = Inr [(''limit'', 100)]
   \<and> enforce_query_safety ''incident'' ''active=true'' (Some 5) default_settings
       = Inr [(''limit'', 5)]
   \<and> enforce_query_safety ''syslog'' ''sys_created_on>2024'' (Some 5) default_settings
       = Inr [(''limit'', 5)]"
proof -
  have nl: "''incident'' \<notin> set (large_table_names default_settings)
            \<or> has_date_filter ''active=true''"
    by (simp add: large_table_names_default)
  have dl: "''syslog'' \<notin> set (large_table_names default_settings)
            \<or> has_date_filter ''sys_created_on>2024''"
    by (simp add: date_filter_created)
  have m: "max_row_limit default_settings = 100"
    by (simp add: default_settings_def)
  show ?thesis
    using effective_limit_capped [OF incident_not_denied nl, of 500]
          effective_limit_capped [OF incident_not_denied nl, of 5]
          effective_limit_capped [OF syslog_not_denied dl, of 5]
    by (simp add: m)
qed

text \<open>
  C5, as stated, fails: the deny list is checked first, so a table that the configuration
  lists as large and that is also on the deny list raises \<open>PolicyError\<close> with or without a
  date field in the filter. With \<open>sys_user_token\<close> configured as a large table, a filter
  that contains \<open>sys_created_on\<close> does not make the call succeed.
\<close>

theorem date_filter_claim_counterexample:
  "\<not> (\<forall>t query limit s. t \<in> set (large_table_names s) \<longrightarrow>
        ((\<exists>msg. enforce_query_safety t query limit s = Inl (QuerySafetyError msg))
           \<longleftrightarrow> \<not> has_date_filter query)
        \<and> (has_date_filter query \<longrightarrow> (\<exists>r. enforce_query_safety t query limit s = Inr r)))"
proof
  assume a: "\<forall>t query limit s. t \<in> set (large_table_names s) \<longrightarrow>
        ((\<exists>msg. enforce_query_safety t query limit s = Inl (QuerySafetyError msg))
           \<longleftrightarrow> \<not> has_date_filter query)
        \<and> (has_date_filter query \<longrightarrow> (\<exists>r. enforce_query_safety t query limit s = Inr r))"
  have lt: "''sys_user_token'' \<in> set (large_table_names denied_large_settings)"
    by (simp add: large_table_names_denied_large)
  have hd: "has_date_filter ''sys_created_on>2024''"
    by (simp add: date_filter_created)
  from a lt hd obtain r where
    "enforce_query_safety ''sys_user_token'' ''sys_created_on>2024'' None denied_large_settings
       = Inr r"
    by blast
  moreover have
    "isl (enforce_query_safety ''sys_user_token'' ''sys_created_on>2024'' None
            denied_large_settings)"
    using sys_user_token_denied by (simp add: enforce_query_safety_def check_table_access_def)
  ultimately show False by simp
qed

text \<open>
  C5, amended. For a table in the configured \<open>large_table_names\<close> that is not on the deny
  list, and for every limit: \<open>enforce_query_safety\<close> raises \<open>QuerySafetyError\<close> exactly when
  no configured date-field name occurs in the filter as a substring, and returns otherwise;
  inserting a configured date-field name at any position of the filter makes the call
  return.
\<close>

theorem large_table_requires_date_filter:
  "t \<in> set (large_table_names s) \<Longrightarrow> t \<notin> DENIED_TABLES \<Longrightarrow>
     ((\<exists>msg. enforce_query_safety t query limit s = Inl (QuerySafetyError msg))
        \<longleftrightarrow> \<not> (\<exists>field\<in>set DATE_FIELD_PATTERNS. \<exists>ps ss. query = ps @ field @ ss))
     \<and> ((\<exists>r. enforce_query_safety t query limit s = Inr r)
        \<longleftrightarrow> (\<exists>field\<in>set DATE_FIELD_PATTERNS. \<exists>ps ss. query = ps @ field @ ss))
     \<and> (\<forall>field\<in>set DATE_FIELD_PATTERNS. \<forall>ps ss. query = ps @ ss \<longrightarrow>
           (\<exists>r. enforce_query_safety t (ps @ field @ ss) limit s = Inr r))"
proof -
  assume lt: "t \<in> set (large_table_names s)" and nd: "t \<notin> DENIED_TABLES"
  have ins: "has_date_filter (ps @ field @ ss)"
    if "field \<in> set DATE_FIELD_PATTERNS" for field ps ss
    using that has_date_filter_iff by blast
  show ?thesis
    using ins lt
    by (auto simp add: enforce_allowed_table [OF nd] has_date_filter_iff [symmetric])
qed

theorem large_table_requires_date_filter_witness:
  "''syslog'' \<in> set (large_table_names default_settings) \<and> ''syslog'' \<notin> DENIED_TABLES
   \<and> \<not> has_date_filter ''active=true''
   \<and> (\<exists>msg. enforce_query_safety ''syslog'' ''active=true'' (Some 5) default_settings
               = Inl (QuerySafetyError msg))
   \<and> ''sys_created_on'' \<in> set DATE_FIELD_PATTERNS
   \<and> (\<exists>r. enforce_query_safety ''syslog'' (''active=true^'' @ ''sys_created_on'' @ ''>2024'')
               (Some 5) default_settings = Inr r)"
proof -
  have lt: "''syslog'' \<in> set (large_table_names default_settings)"
    by (simp add: large_table_names_default)
  have nf: "\<not> has_date_filter ''active=true''"
    by (simp add: no_date_filter_active)
  have fd: "''sys_created_on'' \<in> set DATE_FIELD_PATTERNS"
    by (simp add: DATE_FIELD_PATTERNS_def)
  have nf': "\<not> (\<exists>field\<in>set DATE_FIELD_PATTERNS. \<exists>ps ss. ''active=true'' = ps @ field @ ss)"
    using nf unfolding has_date_filter_iff .
  have a: "\<exists>msg. enforce_query_safety ''syslog'' ''active=true'' (Some 5) default_settings
               = Inl (QuerySafetyError msg)"
    using large_table_requires_date_filter
            [OF lt syslog_not_denied, of "''active=true''" "Some 5",
             THEN conjunct1, THEN iffD2, OF nf'] .
  have b: "\<exists>r. enforce_query_safety ''syslog'' (''active=true^'' @ ''sys_created_on'' @ ''>2024'')
               (Some 5) default_settings = Inr r"
    using large_table_requires_date_filter
            [OF lt syslog_not_denied, of "''active=true^'' @ ''>2024''" "Some 5",
             THEN conjunct2, THEN conjunct2,
             THEN bspec, OF fd, THEN spec, THEN spec, THEN mp, OF refl] .
  show ?thesis
    by (intro conjI lt syslog_not_denied nf a fd b)
qed

section \<open>Properties of the workflow state\<close>

subsection \<open>PreviewTokenStore\<close>

lemma get_absent:
  "store s tok = None \<Longrightarrow> PreviewTokenStore_get fsub s now tok = (None, s)"
  by (simp add: PreviewTokenStore_get_def)

lemma consume_absent:
  "store s tok = None \<Longrightarrow> PreviewTokenStore_consume fsub s now tok = (None, s)"
  by (simp add: PreviewTokenStore_consume_def)

lemma consume_removes:
  "store (snd (PreviewTokenStore_consume fsub s now tok)) tok = None"
  by (simp add: PreviewTokenStore_consume_def split: option.splits)

lemma get_present:
  "store s tok = Some e \<Longrightarrow>
     PreviewTokenStore_get fsub s now tok =
       (if fsub now (created_at e) > real_of_int (ttl s)
        then (None, s\<lparr>store := (store s)(tok := None)\<rparr>)
        else (Some (payload e), s))"
  by (simp add: PreviewTokenStore_get_def is_expired_def)

lemma consume_present:
  "store s tok = Some e \<Longrightarrow>
     PreviewTokenStore_consume fsub s now tok =
       (if fsub now (created_at e) > real_of_int (ttl s)
        then (None, s\<lparr>store := (store s)(tok := None)\<rparr>)
        else (Some (payload e), s\<lparr>store := (store s)(tok := None)\<rparr>))"
  by (simp add: PreviewTokenStore_consume_def is_expired_def)

text \<open>\<open>create\<close> returns the token under which it stored the payload.\<close>

lemma create_token: "fst (PreviewTokenStore_create s tok t0 p) = tok"
  by (simp add: PreviewTokenStore_create_def)

lemma create_store:
  "store (snd (PreviewTokenStore_create s tok t0 p)) (fst (PreviewTokenStore_create s tok t0 p))
     = Some \<lparr>payload = p, created_at = t0\<rparr>"
  "ttl (snd (PreviewTokenStore_create s tok t0 p)) = ttl s"
  by (simp_all add: PreviewTokenStore_create_def)

lemma successful_consumes_Nil: "successful_consumes fsub tok s [] = 0"
  by (simp add: successful_consumes_def)

lemma successful_consumes_Cons:
  "successful_consumes fsub tok s (c # cs) =
     (if snd c = Consume tok \<and> fst (apply_call fsub s c) \<noteq> None then 1 else 0)
     + successful_consumes fsub tok (snd (apply_call fsub s c)) cs"
  by (simp add: successful_consumes_def)

text \<open>A token that is not in the store stays out of it as long as no \<open>create\<close> returns it.\<close>

lemma apply_call_keeps_absent:
  "store s tok = None \<Longrightarrow> \<forall>p. snd c \<noteq> Create tok p \<Longrightarrow>
     store (snd (apply_call fsub s c)) tok = None"
  by (cases c; cases "snd c")
     (auto simp add: PreviewTokenStore_create_def PreviewTokenStore_get_def
        PreviewTokenStore_consume_def split: option.splits)

lemma absent_never_consumed:
  "store s tok = None \<Longrightarrow> \<forall>c\<in>set cs. \<forall>p. snd c \<noteq> Create tok p \<Longrightarrow>
     successful_consumes fsub tok s cs = 0"
proof (induction cs arbitrary: s)
  case Nil
  then show ?case by (simp add: successful_consumes_Nil)
next
  case (Cons c cs)
  have k: "store (snd (apply_call fsub s c)) tok = None"
    using Cons.prems by (intro apply_call_keeps_absent) auto
  have n: "snd c = Consume tok \<Longrightarrow> fst (apply_call fsub s c) = None"
    using Cons.prems(1) by (cases c) (simp add: consume_absent)
  show ?case
    using Cons.IH [OF k] Cons.prems(2) n by (auto simp add: successful_consumes_Cons)
qed

lemma consumed_at_most_once:
  "\<forall>c\<in>set cs. \<forall>p. snd c \<noteq> Create tok p \<Longrightarrow> successful_consumes fsub tok s cs \<le> 1"
proof (induction cs arbitrary: s)
  case Nil
  then show ?case by (simp add: successful_consumes_Nil)
next
  case (Cons c cs)
  have rest: "\<forall>c\<in>set cs. \<forall>p. snd c \<noteq> Create tok p"
    using Cons.prems by simp
  show ?case
  proof (cases "snd c = Consume tok \<and> fst (apply_call fsub s c) \<noteq> None")
    case True
    then have "store (snd (apply_call fsub s c)) tok = None"
      by (cases c) (simp add: consume_removes)
    from absent_never_consumed [OF this rest] show ?thesis
      unfolding successful_consumes_Cons by simp
  next
    case False
    then have "successful_consumes fsub tok s (c # cs)
                 = successful_consumes fsub tok (snd (apply_call fsub s c)) cs"
      unfolding successful_consumes_Cons by (simp only: if_False add_0_left)
    with Cons.IH [OF rest] show ?thesis
      by simp
  qed
qed

lemma store_with_token_entry:
  "store store_with_token ''tok-1'' = Some \<lparr>payload = example_payload, created_at = 0\<rparr>"
  by (simp add: store_with_token_def PreviewTokenStore_create_def)

lemma store_with_token_ttl: "ttl store_with_token = 300"
  by (simp add: store_with_token_def create_store fresh_store_def PreviewTokenStore_init_def)

lemma store_created_at_0_1_entry:
  "store store_created_at_0_1 ''tok-1''
     = Some \<lparr>payload = example_payload, created_at = reading_0_1\<rparr>"
  by (simp add: store_created_at_0_1_def PreviewTokenStore_create_def)

lemma store_created_at_0_1_ttl: "ttl store_created_at_0_1 = 300"
  by (simp add: store_created_at_0_1_def create_store fresh_store_def PreviewTokenStore_init_def)

lemma double_sub_integers:
  "double_sub 300 0 = 300" "double_sub 301 0 = 301" "double_sub 20 0 = 20"
  by code_simp+

text \<open>The two readings differ by more than 300, and by 300 when subtracted as doubles.\<close>

lemma exact_difference_above_ttl: "reading_300_1 - reading_0_1 > 300"
  by (simp add: reading_300_1_def reading_0_1_def)

lemma double_sub_rounds: "double_sub reading_300_1 reading_0_1 = 300"
  by code_simp

text \<open>
  C2. The token lifecycle, with the clock reading of each call explicit and the age of a
  token taken as the program computes it (\<open>fsub now created_at\<close>). A \<open>consume\<close> of the
  token that \<open>create\<close> returned, at an age within the TTL, returns the payload given to
  \<open>create\<close>. After a \<open>consume\<close> of a token, a further \<open>consume\<close> or \<open>get\<close> of it returns
  \<open>None\<close> at any time. A stored token whose age exceeds the TTL yields \<open>None\<close> from \<open>get\<close>
  and from \<open>consume\<close>. In any history of calls in which no \<open>create\<close> returns the token
  again, at most one \<open>consume\<close> of it returns a payload.
\<close>

theorem token_lifecycle:
  "(fsub now t0 \<le> real_of_int (ttl s) \<longrightarrow>
      fst (PreviewTokenStore_consume fsub (snd (PreviewTokenStore_create s tok t0 p)) now
             (fst (PreviewTokenStore_create s tok t0 p))) = Some p)
   \<and> fst (PreviewTokenStore_consume fsub
             (snd (PreviewTokenStore_consume fsub s now tok)) now' tok) = None
   \<and> fst (PreviewTokenStore_get fsub
             (snd (PreviewTokenStore_consume fsub s now tok)) now' tok) = None
   \<and> (store s tok = Some e \<and> fsub now (created_at e) > real_of_int (ttl s) \<longrightarrow>
        fst (PreviewTokenStore_get fsub s now tok) = None
        \<and> fst (PreviewTokenStore_consume fsub s now tok) = None)
   \<and> ((\<forall>c\<in>set cs. \<forall>q. snd c \<noteq> Create tok q) \<longrightarrow> successful_consumes fsub tok s cs \<le> 1)"
proof (intro conjI impI)
  assume "fsub now t0 \<le> real_of_int (ttl s)"
  then show
    "fst (PreviewTokenStore_consume fsub (snd (PreviewTokenStore_create s tok t0 p)) now
            (fst (PreviewTokenStore_create s tok t0 p))) = Some p"
    by (simp add: consume_present [OF create_store(1)] create_store(2))
next
  show "fst (PreviewTokenStore_consume fsub
               (snd (PreviewTokenStore_consume fsub s now tok)) now' tok) = None"
    by (simp add: consume_absent [OF consume_removes])
next
  show "fst (PreviewTokenStore_get fsub
               (snd (PreviewTokenStore_consume fsub s now tok)) now' tok) = None"
    by (simp add: get_absent [OF consume_removes])
next
  assume "store s tok = Some e \<and> fsub now (created_at e) > real_of_int (ttl s)"
  then show "fst (PreviewTokenStore_get fsub s now tok) = None"
    by (simp add: get_present)
next
  assume "store s tok = Some e \<and> fsub now (created_at e) > real_of_int (ttl s)"
  then show "fst (PreviewTokenStore_consume fsub s now tok) = None"
    by (simp add: consume_present)
next
  assume "\<forall>c\<in>set cs. \<forall>q. snd c \<noteq> Create tok q"
  then show "successful_consumes fsub tok s cs \<le> 1"
    by (rule consumed_at_most_once)
qed

theorem token_lifecycle_witness:
  "fst (PreviewTokenStore_consume double_sub
          (snd (PreviewTokenStore_create fresh_store ''tok-1'' 0 example_payload)) 300
          (fst (PreviewTokenStore_create fresh_store ''tok-1'' 0 example_payload)))
     = Some example_payload
   \<and> fst (PreviewTokenStore_consume double_sub
            (snd (PreviewTokenStore_consume double_sub store_with_token 20 ''tok-1''))
            30 ''tok-1'') = None
   \<and> fst (PreviewTokenStore_get double_sub
            (snd (PreviewTokenStore_consume double_sub store_with_token 20 ''tok-1''))
            30 ''tok-1'') = None
   \<and> fst (PreviewTokenStore_get double_sub store_with_token 301 ''tok-1'') = None
   \<and> fst (PreviewTokenStore_consume double_sub store_with_token 301 ''tok-1'') = None
   \<and> successful_consumes double_sub ''tok-1'' store_with_token example_calls \<le> 1"
proof -
  have age: "double_sub 300 0 \<le> real_of_int (ttl fresh_store)"
    by (simp add: double_sub_integers fresh_store_def PreviewTokenStore_init_def)
  have old: "store store_with_token ''tok-1'' = Some \<lparr>payload = example_payload, created_at = 0\<rparr>
             \<and> double_sub 301 (created_at \<lparr>payload = example_payload, created_at = 0\<rparr>)
                 > real_of_int (ttl store_with_token)"
    by (simp add: store_with_token_entry store_with_token_ttl double_sub_integers)
  have nc: "\<forall>c\<in>set example_calls. \<forall>q. snd c \<noteq> Create ''tok-1'' q"
    by (simp add: example_calls_def)
  note a = token_lifecycle
             [of double_sub 300 0 fresh_store "''tok-1''" example_payload,
              THEN conjunct1, THEN mp, OF age]
  note b = token_lifecycle
             [where fsub = double_sub and s = store_with_token and tok = "''tok-1''"
                and now = 20 and now' = 30, THEN conjunct2]
  note c = token_lifecycle
             [where fsub = double_sub and s = store_with_token and tok = "''tok-1''"
                and now = 301 and cs = example_calls
                and e = "\<lparr>payload = example_payload, created_at = 0\<rparr>",
              THEN conjunct2, THEN conjunct2, THEN conjunct2]
  note b1 = b [THEN conjunct1]
  note b2 = b [THEN conjunct2, THEN conjunct1]
  note c1 = c [THEN conjunct1, THEN mp, OF old]
  note c2 = c [THEN conjunct2, THEN mp, OF nc]
  show ?thesis
    by (intro conjI a b1 b2 c1 [THEN conjunct1] c1 [THEN conjunct2] c2)
qed

text \<open>
  C10. The expiry test is strict, on the age as the program computes it. For a stored
  token, an access at a computed age equal to the TTL finds it active: \<open>get\<close> returns the
  payload and leaves the store as it is, \<open>consume\<close> returns the payload and removes the
  token. \<open>get\<close> and \<open>consume\<close> return \<open>None\<close> exactly when the computed age is greater than
  the TTL, and the expired token is then deleted from the store.
\<close>

theorem expiry_boundary_strict:
  "store s tok = Some e \<Longrightarrow>
     (fsub now (created_at e) = real_of_int (ttl s) \<longrightarrow>
        PreviewTokenStore_get fsub s now tok = (Some (payload e), s)
        \<and> PreviewTokenStore_consume fsub s now tok
            = (Some (payload e), s\<lparr>store := (store s)(tok := None)\<rparr>))
     \<and> (fst (PreviewTokenStore_get fsub s now tok) = None
          \<longleftrightarrow> fsub now (created_at e) > real_of_int (ttl s))
     \<and> (fst (PreviewTokenStore_consume fsub s now tok) = None
          \<longleftrightarrow> fsub now (created_at e) > real_of_int (ttl s))
     \<and> (fsub now (created_at e) > real_of_int (ttl s) \<longrightarrow>
          PreviewTokenStore_get fsub s now tok = (None, s\<lparr>store := (store s)(tok := None)\<rparr>)
          \<and> PreviewTokenStore_consume fsub s now tok
              = (None, s\<lparr>store := (store s)(tok := None)\<rparr>))"
  by (simp add: get_present consume_present)

theorem expiry_boundary_strict_witness:
  "PreviewTokenStore_get double_sub store_with_token 300 ''tok-1''
     = (Some example_payload, store_with_token)
   \<and> fst (PreviewTokenStore_consume double_sub store_with_token 300 ''tok-1'')
       = Some example_payload
   \<and> PreviewTokenStore_get double_sub store_created_at_0_1 reading_300_1 ''tok-1''
       = (Some example_payload, store_created_at_0_1)
   \<and> fst (PreviewTokenStore_get double_sub store_with_token 301 ''tok-1'') = None
   \<and> store (snd (PreviewTokenStore_get double_sub store_with_token 301 ''tok-1'')) ''tok-1''
       = None
   \<and> fst (PreviewTokenStore_consume double_sub store_with_token 301 ''tok-1'') = None"
proof -
  note th = expiry_boundary_strict [OF store_with_token_entry, of double_sub]
  note th' = expiry_boundary_strict [OF store_created_at_0_1_entry, of double_sub]
  have eq: "double_sub 300 (created_at \<lparr>payload = example_payload, created_at = 0\<rparr>)
              = real_of_int (ttl store_with_token)"
    by (simp add: store_with_token_ttl double_sub_integers)
  have eq': "double_sub reading_300_1
               (created_at \<lparr>payload = example_payload, created_at = reading_0_1\<rparr>)
              = real_of_int (ttl store_created_at_0_1)"
    by (simp add: store_created_at_0_1_ttl double_sub_rounds)
  have gt: "double_sub 301 (created_at \<lparr>payload = example_payload, created_at = 0\<rparr>)
              > real_of_int (ttl store_with_token)"
    by (simp add: store_with_token_ttl double_sub_integers)
  from th [of 300, THEN conjunct1, THEN mp, OF eq]
       th' [of reading_300_1, THEN conjunct1, THEN mp, OF eq']
       th [of 301, THEN conjunct2, THEN conjunct2, THEN conjunct2, THEN mp, OF gt]
  show ?thesis
    by simp
qed

subsection \<open>SeededRecordTracker\<close>

text \<open>
  C7. Two successive \<open>track\<close> calls on one tag, with any tables, accumulate: the following
  \<open>get\<close> returns what the tag held before followed by the two entries in the order of the
  calls. \<open>get\<close> of an unknown tag is \<open>None\<close>. After \<open>remove\<close> of a tag its \<open>get\<close> is \<open>None\<close>:
  the whole entry is gone, and every other tag keeps its entries.
\<close>

theorem seed_ledger:
  "SeededRecordTracker_get
      (SeededRecordTracker_track (SeededRecordTracker_track st tag t1 ids1) tag t2 ids2) tag
     = Some ((case st tag of None \<Rightarrow> [] | Some entries \<Rightarrow> entries)
             @ [\<lparr>table = t1, sys_ids = ids1\<rparr>, \<lparr>table = t2, sys_ids = ids2\<rparr>])
   \<and> (tag \<notin> dom st \<longrightarrow> SeededRecordTracker_get st tag = None)
   \<and> SeededRecordTracker_get (SeededRecordTracker_remove st tag) tag = None
   \<and> (other \<noteq> tag \<longrightarrow>
        SeededRecordTracker_get (SeededRecordTracker_remove st tag) other
          = SeededRecordTracker_get st other)"
  by (auto simp add: SeededRecordTracker_get_def SeededRecordTracker_track_def
        SeededRecordTracker_remove_def split: option.splits)

theorem seed_ledger_witness:
  "SeededRecordTracker_get example_tracker ''x''
     = Some [\<lparr>table = ''incident'', sys_ids = [''a'']\<rparr>, \<lparr>table = ''problem'', sys_ids = [''b'']\<rparr>]
   \<and> SeededRecordTracker_get SeededRecordTracker_init ''x'' = None
   \<and> SeededRecordTracker_get (SeededRecordTracker_remove example_tracker ''x'') ''x'' = None
   \<and> SeededRecordTracker_get (SeededRecordTracker_remove example_tracker ''x'') ''y''
       = SeededRecordTracker_get example_tracker ''y''"
proof -
  have unknown: "''x'' \<notin> dom SeededRecordTracker_init"
    by (simp add: SeededRecordTracker_init_def)
  have other: "''y'' \<noteq> ''x''"
    by simp
  note th = seed_ledger [of _ "''x''" _ _ _ _ "''y''"]
  from th [of SeededRecordTracker_init "''incident''" "[''a'']" "''problem''" "[''b'']",
           THEN conjunct1]
       th [of SeededRecordTracker_init, THEN conjunct2, THEN conjunct1, THEN mp, OF unknown]
       th [of example_tracker, THEN conjunct2, THEN conjunct2, THEN conjunct1]
       th [of example_tracker, THEN conjunct2, THEN conjunct2, THEN conjunct2, THEN mp, OF other]
  show ?thesis
    by (simp add: example_tracker_def SeededRecordTracker_init_def)
qed

section \<open>Properties of \<open>mask_sensitive_fields\<close>\<close>

lemma map_of_dict_set: "map_of (dict_set k v d) = (map_of d)(k \<mapsto> v)"
  by (induction d) (auto simp add: fun_eq_iff)

lemma keys_dict_set: "k \<in> fst ` set d \<Longrightarrow> map fst (dict_set k v d) = map fst d"
  by (induction d) force+

lemma length_mask_loop: "length (mask_loop keys m h) = length h"
  by (induction keys arbitrary: h) auto

lemma mask_loop_other: "a \<noteq> m \<Longrightarrow> mask_loop keys m h ! a = h ! a"
  by (induction keys arbitrary: h) auto

lemma mask_loop_keys:
  "m < length h \<Longrightarrow> set keys \<subseteq> fst ` set (h ! m) \<Longrightarrow>
     map fst (mask_loop keys m h ! m) = map fst (h ! m)"
proof (induction keys arbitrary: h)
  case Nil
  then show ?case by simp
next
  case (Cons key keys)
  let ?h = "if is_sensitive_field key then h[m := dict_set key MASK_VALUE (h ! m)] else h"
  have k: "map fst (?h ! m) = map fst (h ! m)"
    using Cons.prems by (simp add: keys_dict_set)
  have l: "m < length ?h" using Cons.prems by simp
  have s: "set keys \<subseteq> fst ` set (?h ! m)"
    using Cons.prems(2) k by (metis list.set_map set_subset_Cons subset_trans)
  show ?case
    using Cons.IH [OF l s] k by simp
qed

lemma mask_loop_lookup:
  "m < length h \<Longrightarrow>
     map_of (mask_loop keys m h ! m) k =
       (if k \<in> set keys \<and> is_sensitive_field k then Some MASK_VALUE else map_of (h ! m) k)"
proof (induction keys arbitrary: h)
  case Nil
  then show ?case by simp
next
  case (Cons key keys)
  let ?h = "if is_sensitive_field key then h[m := dict_set key MASK_VALUE (h ! m)] else h"
  have l: "m < length ?h" using Cons.prems by simp
  have v: "map_of (?h ! m) k =
             (if k = key \<and> is_sensitive_field k then Some MASK_VALUE else map_of (h ! m) k)"
    using Cons.prems by (cases "is_sensitive_field key") (auto simp add: map_of_dict_set)
  show ?case
    using Cons.IH [OF l] v by auto
qed

lemma is_sensitive_field_iff:
  "is_sensitive_field field_name \<longleftrightarrow>
     (\<exists>pattern\<in>set SENSITIVE_PATTERNS. \<exists>ps ss. map to_lower field_name = ps @ pattern @ ss)"
  by (simp add: is_sensitive_field_def search_ignorecase_def list_ex_iff sublist_def)

text \<open>
  C6. For a record at address \<open>r\<close> of the heap, \<open>mask_sensitive_fields\<close> returns a new address
  (the copy) and a heap in which every object that existed before, the record itself
  included, is unchanged. The copy has the record's keys in the record's order; a key that
  matches a sensitive pattern, in any case of its letters, holds \<open>MASK_VALUE\<close> whatever value
  it had, and every other key holds the value it had.
\<close>

theorem mask_sensitive_fields_copy:
  "r < length h \<Longrightarrow> mask_sensitive_fields h r = (h', masked) \<Longrightarrow>
     masked = length h \<and> length h' = Suc (length h)
     \<and> (\<forall>a<length h. h' ! a = h ! a)
     \<and> map fst (h' ! masked) = map fst (h ! r)
     \<and> (\<forall>k. dict_get (h' ! masked) k =
              (case dict_get (h ! r) k of
                 None \<Rightarrow> None
               | Some v \<Rightarrow> Some (if is_sensitive_field k then MASK_VALUE else v)))"
proof -
  assume r: "r < length h" and m: "mask_sensitive_fields h r = (h', masked)"
  let ?h1 = "h @ [h ! r]"
  from m have masked: "masked = length h"
    and h': "h' = mask_loop (map fst (?h1 ! length h)) (length h) ?h1"
    by (auto simp add: mask_sensitive_fields_def dict_copy_def)
  have l1: "length h < length ?h1" by simp
  have at: "?h1 ! length h = h ! r" by simp
  have len: "length h' = Suc (length h)"
    by (simp add: h' length_mask_loop)
  have old: "\<forall>a<length h. h' ! a = h ! a"
    by (simp add: h' mask_loop_other nth_append)
  have keys: "map fst (h' ! masked) = map fst (h ! r)"
    unfolding h' masked using mask_loop_keys [OF l1, of "map fst (?h1 ! length h)"]
    by (simp add: at)
  have look: "dict_get (h' ! masked) k =
              (case dict_get (h ! r) k of
                 None \<Rightarrow> None
               | Some v \<Rightarrow> Some (if is_sensitive_field k then MASK_VALUE else v))" for k
  proof -
    have dom: "k \<in> set (map fst (h ! r)) \<longleftrightarrow> map_of (h ! r) k \<noteq> None"
      by (simp add: map_of_eq_None_iff)
    show ?thesis
      unfolding h' masked dict_get_def mask_loop_lookup [OF l1] at dom
      by (simp split: option.splits)
  qed
  from masked len old keys look show ?thesis by blast
qed

lemma example_masked:
  "mask_sensitive_fields example_heap 0 = (example_masked_heap, 1)"
  by code_simp

theorem mask_sensitive_fields_copy_witness:
  "mask_sensitive_fields example_heap 0 = (example_masked_heap, 1)
   \<and> example_masked_heap ! 0 = example_heap ! 0
   \<and> map fst (example_masked_heap ! 1) = [''name'', ''User_Password'', ''api_key'', ''active'']
   \<and> is_sensitive_field ''User_Password''
   \<and> dict_get (example_heap ! 0) ''User_Password'' = Some (PInt 42)
   \<and> dict_get (example_masked_heap ! 1) ''User_Password'' = Some MASK_VALUE
   \<and> \<not> is_sensitive_field ''active''
   \<and> dict_get (example_masked_heap ! 1) ''active'' = Some (PBool True)"
proof -
  have r: "0 < length example_heap" by (simp add: example_heap_def)
  have s1: "is_sensitive_field ''User_Password''" by code_simp
  have s2: "\<not> is_sensitive_field ''active''" by code_simp
  have g1: "dict_get (example_heap ! 0) ''User_Password'' = Some (PInt 42)"
    by (simp add: example_heap_def dict_get_def)
  have g2: "dict_get (example_heap ! 0) ''active'' = Some (PBool True)"
    by (simp add: example_heap_def dict_get_def)
  note th = mask_sensitive_fields_copy [OF r example_masked]
  note old = th [THEN conjunct2, THEN conjunct2, THEN conjunct1, THEN spec, THEN mp, OF r]
  note keys = th [THEN conjunct2, THEN conjunct2, THEN conjunct2, THEN conjunct1]
  note look = th [THEN conjunct2, THEN conjunct2, THEN conjunct2, THEN conjunct2, THEN spec]
  have k: "map fst (example_masked_heap ! 1) = [''name'', ''User_Password'', ''api_key'', ''active'']"
    using keys by (simp add: example_heap_def)
  have m1: "dict_get (example_masked_heap ! 1) ''User_Password'' = Some MASK_VALUE"
    using look [of "''User_Password''"] s1 by (simp add: g1)
  have m2: "dict_get (example_masked_heap ! 1) ''active'' = Some (PBool True)"
    using look [of "''active''"] s2 by (simp add: g2)
  show ?thesis
    by (intro conjI example_masked old k s1 g1 m1 s2 m2)
qed

section \<open>Properties of the investigations\<close>

subsection \<open>Grouping\<close>

text \<open>The group of a key holds the elements with that key, in their order; groups are
  never empty and no key has two groups.\<close>

lemma group_append_keys:
  "map fst (group_append k v g) = (if k \<in> set (map fst g) then map fst g else map fst g @ [k])"
  by (induction g) force+

lemma group_append_lookup:
  "map_of (group_append k v g) k' =
     (if k' = k then Some ((case map_of g k of None \<Rightarrow> [] | Some vs \<Rightarrow> vs) @ [v])
      else map_of g k')"
  by (induction g) auto

lemma group_append_distinct:
  "distinct (map fst g) \<Longrightarrow> distinct (map fst (group_append k v g))"
  by (simp add: group_append_keys)

lemma fold_group_distinct:
  "distinct (map fst g) \<Longrightarrow>
     distinct (map fst (fold (\<lambda>x g. group_append (key x) x g) xs g))"
  by (induction xs arbitrary: g) (simp_all add: group_append_distinct)

lemma fold_group_lookup:
  "map_of (fold (\<lambda>x g. group_append (key x) x g) xs g) k =
     (if map_of g k = None \<and> filter (\<lambda>x. key x = k) xs = [] then None
      else Some ((case map_of g k of None \<Rightarrow> [] | Some vs \<Rightarrow> vs) @ filter (\<lambda>x. key x = k) xs))"
proof (induction xs arbitrary: g)
  case Nil
  then show ?case by (simp split: option.splits)
next
  case (Cons x xs)
  show ?case
    by (simp add: Cons.IH group_append_lookup split: option.splits)
qed

lemma group_by_distinct: "distinct (map fst (group_by key xs))"
  by (simp add: group_by_def fold_group_distinct)

lemma group_by_lookup:
  "map_of (group_by key xs) k =
     (if filter (\<lambda>x. key x = k) xs = [] then None else Some (filter (\<lambda>x. key x = k) xs))"
  by (simp add: group_by_def fold_group_lookup)

lemma group_by_member:
  "(k, vs) \<in> set (group_by key xs) \<longleftrightarrow> vs = filter (\<lambda>x. key x = k) xs \<and> vs \<noteq> []"
proof -
  have "(k, vs) \<in> set (group_by key xs) \<longleftrightarrow> map_of (group_by key xs) k = Some vs"
    by (simp add: map_of_eq_Some_iff [OF group_by_distinct])
  also have "\<dots> \<longleftrightarrow> vs = filter (\<lambda>x. key x = k) xs \<and> vs \<noteq> []"
    unfolding group_by_lookup by (cases "filter (\<lambda>x. key x = k) xs = []") auto
  finally show ?thesis .
qed

lemma py_min_eq: "py_min x xs = Min (set (x # xs))"
proof -
  have "(\<lambda>y m. if y < m then y else m) = (min :: 'a \<Rightarrow> 'a \<Rightarrow> 'a)"
    by (auto simp add: fun_eq_iff min_def)
  then have "py_min x xs = fold min xs x"
    by (simp add: py_min_def)
  then show ?thesis
    by (simp only: Min.set_eq_fold)
qed

lemma py_max_eq: "py_max x xs = Max (set (x # xs))"
proof -
  have "(\<lambda>y m. if y > m then y else m) = (max :: 'a \<Rightarrow> 'a \<Rightarrow> 'a)"
    by (auto simp add: fun_eq_iff max_def)
  then have "py_max x xs = fold max xs x"
    by (simp add: py_max_def)
  then show ?thesis
    by (simp only: Max.set_eq_fold)
qed

lemma acl_conflict_findings_eq:
  "acl_conflict_findings groups =
     map (\<lambda>(nm, grp). acl_conflict_finding nm grp) (filter (\<lambda>(nm, grp). length grp \<ge> 2) groups)"
  by (induction groups) auto

subsection \<open>\<open>acl_conflicts.run\<close>\<close>

lemma acl_conflict_finding_sel:
  "name (acl_conflict_finding n g) = n"
  "count (acl_conflict_finding n g) = length g"
  "acls (acl_conflict_finding n g) =
     map (\<lambda>a. \<lparr>sys_id = dict_get_default a ''sys_id'' '''',
                operation = dict_get_default a ''operation'' '''',
                condition = dict_get_default a ''condition'' '''',
                active = dict_get_default a ''active'' ''''\<rparr>) g"
  by (simp_all add: acl_conflict_finding_def)

lemma acl_findings_names:
  "map name (acl_conflict_findings groups) = map fst (filter (\<lambda>(nm, grp). length grp \<ge> 2) groups)"
  by (induction groups) (auto simp add: acl_conflict_finding_sel)

lemma acl_findings_distinct:
  "distinct (map name (acl_conflict_findings (group_by key xs)))"
  unfolding acl_findings_names by (rule distinct_map_filter) (rule group_by_distinct)

lemma acl_findings_member:
  "f \<in> set (acl_conflict_findings (group_by key xs)) \<longleftrightarrow>
     (\<exists>n. 2 \<le> length (filter (\<lambda>x. key x = n) xs)
          \<and> f = acl_conflict_finding n (filter (\<lambda>x. key x = n) xs))"
proof
  assume "f \<in> set (acl_conflict_findings (group_by key xs))"
  then obtain n g where "(n, g) \<in> set (group_by key xs)" "2 \<le> length g"
    "f = acl_conflict_finding n g"
    unfolding acl_conflict_findings_eq by auto
  then show "\<exists>n. 2 \<le> length (filter (\<lambda>x. key x = n) xs)
          \<and> f = acl_conflict_finding n (filter (\<lambda>x. key x = n) xs)"
    by (auto simp add: group_by_member)
next
  assume "\<exists>n. 2 \<le> length (filter (\<lambda>x. key x = n) xs)
          \<and> f = acl_conflict_finding n (filter (\<lambda>x. key x = n) xs)"
  then obtain n where n: "2 \<le> length (filter (\<lambda>x. key x = n) xs)"
    and f: "f = acl_conflict_finding n (filter (\<lambda>x. key x = n) xs)"
    by blast
  from n have "filter (\<lambda>x. key x = n) xs \<noteq> []" by auto
  then have "(n, filter (\<lambda>x. key x = n) xs) \<in> set (group_by key xs)"
    by (simp add: group_by_member)
  with n f show "f \<in> set (acl_conflict_findings (group_by key xs))"
    unfolding acl_conflict_findings_eq by force
qed

lemma distinct_keys_filter:
  "distinct (map key xs) \<Longrightarrow> length (filter (\<lambda>x. key x = n) xs) \<le> 1"
proof (induction xs)
  case Nil
  then show ?case by simp
next
  case (Cons x xs)
  show ?case
  proof (cases "key x = n")
    case True
    have "key y \<noteq> n" if y: "y \<in> set xs" for y
    proof
      assume "key y = n"
      with True y have "key x \<in> key ` set xs" by (metis imageI)
      with Cons.prems show False by simp
    qed
    then have "filter (\<lambda>x. key x = n) xs = []"
      by (simp add: filter_empty_conv)
    with True show ?thesis by simp
  next
    case False
    with Cons show ?thesis by simp
  qed
qed

lemma incident_params_table: "dict_get_default incident_params ''table'' PNone = PStr ''incident''"
  by (simp add: incident_params_def dict_get_default_def)

lemma fixed_client_answer:
  "fixed_client recs tbl query flds lmt order_by
     = Inr \<lparr>records = recs, total_count = int (length recs)\<rparr>"
  by (simp add: fixed_client_def)

lemma run_conflicting_acls:
  "acl_conflicts_run (fixed_client conflicting_acls) incident_params =
     Inr \<lparr>investigation = ''acl_conflicts'', finding_count = 1,
          findings = [acl_conflict_finding ''incident.read'' conflicting_acls],
          error_text = None, checked_table = Some (PStr ''incident''),
          total_acls_checked = Some 2\<rparr>"
  by code_simp

lemma run_same_condition_acls:
  "acl_conflicts_run (fixed_client same_condition_acls) incident_params =
     Inr \<lparr>investigation = ''acl_conflicts'', finding_count = 1,
          findings = [acl_conflict_finding ''incident.read'' same_condition_acls],
          error_text = None, checked_table = Some (PStr ''incident''),
          total_acls_checked = Some 2\<rparr>"
  by code_simp

text \<open>
  C1, as stated, fails: the conditions of the members are never compared. Two ACLs with
  the same name and the same condition are answered with a finding for that name, although
  no two members of the group differ in their condition.
\<close>

theorem acl_conflict_claim_counterexample:
  "\<not> (\<forall>acls n. \<exists>r. acl_conflicts_run (fixed_client acls) incident_params = Inr r
         \<and> ((\<exists>f\<in>set (findings r). name f = n)
              \<longleftrightarrow> (\<exists>a\<in>set acls. \<exists>b\<in>set acls.
                     dict_get_default a ''name'' '''' = n \<and> dict_get_default b ''name'' '''' = n
                     \<and> dict_get_default a ''condition'' '''' \<noteq> dict_get_default b ''condition'' '''')))"
proof
  assume "\<forall>acls n. \<exists>r. acl_conflicts_run (fixed_client acls) incident_params = Inr r
         \<and> ((\<exists>f\<in>set (findings r). name f = n)
              \<longleftrightarrow> (\<exists>a\<in>set acls. \<exists>b\<in>set acls.
                     dict_get_default a ''name'' '''' = n \<and> dict_get_default b ''name'' '''' = n
                     \<and> dict_get_default a ''condition'' '''' \<noteq> dict_get_default b ''condition'' ''''))"
  then obtain r where
    r: "acl_conflicts_run (fixed_client same_condition_acls) incident_params = Inr r"
    and iff: "(\<exists>f\<in>set (findings r). name f = ''incident.read'')
              \<longleftrightarrow> (\<exists>a\<in>set same_condition_acls. \<exists>b\<in>set same_condition_acls.
                     dict_get_default a ''name'' '''' = ''incident.read''
                     \<and> dict_get_default b ''name'' '''' = ''incident.read''
                     \<and> dict_get_default a ''condition'' '''' \<noteq> dict_get_default b ''condition'' '''')"
    by blast
  from r have "findings r = [acl_conflict_finding ''incident.read'' same_condition_acls]"
    by (auto simp add: run_same_condition_acls)
  then have "\<exists>f\<in>set (findings r). name f = ''incident.read''"
    by (simp add: acl_conflict_finding_sel)
  moreover have "\<forall>a\<in>set same_condition_acls. dict_get_default a ''condition'' '''' = ''active=true''"
    by (simp add: same_condition_acls_def dict_get_default_def)
  ultimately show False
    using iff by simp
qed

text \<open>
  C1, amended. When the \<open>table\<close> parameter is given and the query for the ACLs returns,
  \<open>run\<close> groups the returned rules by their name and produces a finding for a name exactly
  when at least two rules have that name, whatever their conditions are. There is one
  finding per such name, and it carries the number of the rules with that name and all of
  them, in the order of the query's answer. In particular, rules whose names are pairwise
  distinct yield no finding.
\<close>

theorem acl_conflicts_by_name:
  assumes tbl: "truthy (dict_get_default params ''table'' PNone)"
    and ok: "client ''sys_security_acl''
               (''nameSTARTSWITH'' @ py_str (dict_get_default params ''table'' PNone))
               [''sys_id'', ''name'', ''operation'', ''condition'', ''script'', ''active'']
               (PInt 500) None = Inr res"
  shows "\<exists>r. acl_conflicts_run client params = Inr r
     \<and> finding_count r = length (findings r)
     \<and> distinct (map name (findings r))
     \<and> (\<forall>n. (\<exists>f\<in>set (findings r). name f = n)
              \<longleftrightarrow> 2 \<le> length (filter (\<lambda>a. dict_get_default a ''name'' '''' = n) (records res)))
     \<and> (\<forall>f\<in>set (findings r).
           count f = length (filter (\<lambda>a. dict_get_default a ''name'' '''' = name f) (records res))
           \<and> acls f =
               map (\<lambda>a. \<lparr>sys_id = dict_get_default a ''sys_id'' '''',
                          operation = dict_get_default a ''operation'' '''',
                          condition = dict_get_default a ''condition'' '''',
                          active = dict_get_default a ''active'' ''''\<rparr>)
                 (filter (\<lambda>a. dict_get_default a ''name'' '''' = name f) (records res)))
     \<and> (distinct (map (\<lambda>a. dict_get_default a ''name'' '''') (records res))
          \<longrightarrow> findings r = [])"
proof -
  let ?key = "\<lambda>a::snow_record. dict_get_default a ''name'' ''''"
  let ?fs = "acl_conflict_findings (group_by ?key (records res))"
  let ?r = "\<lparr>investigation = ''acl_conflicts'', finding_count = length ?fs,
             findings = ?fs, error_text = None,
             checked_table = Some (dict_get_default params ''table'' PNone),
             total_acls_checked = Some (length (records res))\<rparr>"
  have run: "acl_conflicts_run client params = Inr ?r"
    using tbl ok by (simp add: acl_conflicts_run_def Let_def)
  have names: "(\<exists>f\<in>set ?fs. name f = n) \<longleftrightarrow> 2 \<le> length (filter (\<lambda>a. ?key a = n) (records res))"
    for n
  proof
    assume "\<exists>f\<in>set ?fs. name f = n"
    then obtain f where "f \<in> set ?fs" "name f = n" by blast
    then show "2 \<le> length (filter (\<lambda>a. ?key a = n) (records res))"
      unfolding acl_findings_member by (auto simp add: acl_conflict_finding_sel)
  next
    assume "2 \<le> length (filter (\<lambda>a. ?key a = n) (records res))"
    then have "acl_conflict_finding n (filter (\<lambda>a. ?key a = n) (records res)) \<in> set ?fs"
      unfolding acl_findings_member by blast
    then show "\<exists>f\<in>set ?fs. name f = n"
      by (rule bexI [rotated]) (simp add: acl_conflict_finding_sel)
  qed
  have members: "count f = length (filter (\<lambda>a. ?key a = name f) (records res))
           \<and> acls f =
               map (\<lambda>a. \<lparr>sys_id = dict_get_default a ''sys_id'' '''',
                          operation = dict_get_default a ''operation'' '''',
                          condition = dict_get_default a ''condition'' '''',
                          active = dict_get_default a ''active'' ''''\<rparr>)
                 (filter (\<lambda>a. ?key a = name f) (records res))"
    if "f \<in> set ?fs" for f
    using that unfolding acl_findings_member by (auto simp add: acl_conflict_finding_sel)
  have none: "?fs = []" if d: "distinct (map ?key (records res))"
  proof (rule ccontr)
    assume "?fs \<noteq> []"
    then obtain f where "f \<in> set ?fs" by (cases ?fs) auto
    then obtain n where "2 \<le> length (filter (\<lambda>a. ?key a = n) (records res))"
      unfolding acl_findings_member by blast
    with distinct_keys_filter [OF d, of n] show False by simp
  qed
  show ?thesis
    apply (rule exI [of _ ?r])
    apply (intro conjI allI ballI impI)
         apply (rule run)
        apply simp
       apply (simp add: acl_findings_distinct)
      apply (simp add: names)
    using members apply simp
    using members apply simp
    using none apply simp
    done
qed

theorem acl_conflicts_by_name_witness:
  "(\<exists>r. acl_conflicts_run (fixed_client conflicting_acls) incident_params = Inr r
        \<and> finding_count r = 1
        \<and> map name (findings r) = [''incident.read'']
        \<and> map count (findings r) = [2]
        \<and> map (\<lambda>f. map condition (acls f)) (findings r) = [[''active=true'', ''priority=1'']])
   \<and> (\<exists>r. acl_conflicts_run (fixed_client distinct_name_acls) incident_params = Inr r
        \<and> finding_count r = 0
        \<and> findings r = [])"
proof -
  have tbl: "truthy (dict_get_default incident_params ''table'' PNone)"
    by (simp add: incident_params_table)
  from acl_conflicts_by_name
         [where client = "fixed_client conflicting_acls", OF tbl fixed_client_answer]
  obtain r1 where
    r1: "acl_conflicts_run (fixed_client conflicting_acls) incident_params = Inr r1"
    and c1: "finding_count r1 = length (findings r1)"
    and m1: "\<forall>f\<in>set (findings r1).
           count f = length (filter (\<lambda>a. dict_get_default a ''name'' '''' = name f) conflicting_acls)
           \<and> acls f =
               map (\<lambda>a. \<lparr>sys_id = dict_get_default a ''sys_id'' '''',
                          operation = dict_get_default a ''operation'' '''',
                          condition = dict_get_default a ''condition'' '''',
                          active = dict_get_default a ''active'' ''''\<rparr>)
                 (filter (\<lambda>a. dict_get_default a ''name'' '''' = name f) conflicting_acls)"
    by auto
  from r1 have f1: "findings r1 = [acl_conflict_finding ''incident.read'' conflicting_acls]"
    by (auto simp add: run_conflicting_acls)
  have n1: "map name (findings r1) = [''incident.read'']"
    by (simp add: f1 acl_conflict_finding_sel)
  have k1: "map count (findings r1) = [2]"
    using m1 by (simp add: f1 acl_conflict_finding_sel conflicting_acls_def dict_get_default_def)
  have a1: "map (\<lambda>f. map condition (acls f)) (findings r1) = [[''active=true'', ''priority=1'']]"
    using m1 by (simp add: f1 acl_conflict_finding_sel conflicting_acls_def dict_get_default_def)
  from acl_conflicts_by_name
         [where client = "fixed_client distinct_name_acls", OF tbl fixed_client_answer]
  obtain r2 where
    r2: "acl_conflicts_run (fixed_client distinct_name_acls) incident_params = Inr r2"
    and c2: "finding_count r2 = length (findings r2)"
    and d2: "distinct (map (\<lambda>a. dict_get_default a ''name'' '''') distinct_name_acls)
               \<longrightarrow> findings r2 = []"
    by auto
  have "distinct (map (\<lambda>a. dict_get_default a ''name'' '''') distinct_name_acls)"
    by (simp add: distinct_name_acls_def dict_get_default_def)
  with d2 have f2: "findings r2 = []" by simp
  show ?thesis
    using r1 c1 n1 k1 a1 r2 c2 f2 f1 by auto
qed

subsection \<open>\<open>error_analysis.run\<close>\<close>

lemma error_cluster_finding_fields:
  "error_cluster_finding s es = Inr f \<Longrightarrow>
     es \<noteq> [] \<and> category f = ''error_cluster'' \<and> source f = s \<and> frequency f = length es
     \<and> first_seen f = Min (set (map (\<lambda>e. dict_get_default e ''sys_created_on'' '''') es))
     \<and> last_seen f = Max (set (map (\<lambda>e. dict_get_default e ''sys_created_on'' '''') es))
     \<and> sample_messages f = map (\<lambda>e. dict_get_default e ''message'' '''') (take 3 es)
     \<and> element_id f = ''syslog:'' @ dict_get_default (hd es) ''sys_id'' ''''"
  by (cases es) (auto simp add: error_cluster_finding_def py_min_eq py_max_eq)

lemma error_cluster_finding_nonempty:
  "es \<noteq> [] \<Longrightarrow> \<exists>f. error_cluster_finding s es = Inr f"
  by (cases es) (simp_all add: error_cluster_finding_def)

lemma error_cluster_findings_total:
  "\<forall>c\<in>set cl. snd c \<noteq> [] \<Longrightarrow>
     \<exists>fs. error_cluster_findings cl = Inr fs
          \<and> list_all2 (\<lambda>c f. error_cluster_finding (fst c) (snd c) = Inr f) cl fs"
proof (induction cl)
  case Nil
  then show ?case by simp
next
  case (Cons c cl)
  obtain s es where c: "c = (s, es)" by (cases c)
  from Cons.prems c have "es \<noteq> []" by simp
  then obtain f where f: "error_cluster_finding s es = Inr f"
    using error_cluster_finding_nonempty by blast
  from Cons.IH Cons.prems obtain fs where
    fs: "error_cluster_findings cl = Inr fs"
    "list_all2 (\<lambda>c f. error_cluster_finding (fst c) (snd c) = Inr f) cl fs"
    by auto
  show ?case
    using c f fs by simp
qed

lemma findings_sources:
  "list_all2 (\<lambda>c f. error_cluster_finding (fst c) (snd c) = Inr f) cl fs \<Longrightarrow>
     map source fs = map fst cl \<and> map frequency fs = map (\<lambda>c. length (snd c)) cl"
  by (induction rule: list_all2_induct) (auto dest: error_cluster_finding_fields)

lemma findings_origin:
  "list_all2 (\<lambda>c f. error_cluster_finding (fst c) (snd c) = Inr f) cl fs \<Longrightarrow> f \<in> set fs \<Longrightarrow>
     \<exists>c\<in>set cl. error_cluster_finding (fst c) (snd c) = Inr f"
  by (induction rule: list_all2_induct) auto

lemma distinct_fst_sort_key:
  "distinct (map fst (sort_key k xs)) = distinct (map fst xs)"
  by (simp add: distinct_map)

lemma sorted_by_frequency:
  "sorted_wrt (\<lambda>a b. length (snd a) \<ge> length (snd b)) (sort_key (\<lambda>x. - int (length (snd x))) cl)"
proof -
  have "sorted (map (\<lambda>x. - int (length (snd x))) (sort_key (\<lambda>x. - int (length (snd x))) cl))"
    by (rule sorted_sort_key)
  then show ?thesis
    by (simp add: sorted_wrt_map)
qed

lemma run_example_logs:
  "error_analysis_run (fixed_client example_logs) [] =
     Inr \<lparr>investigation = ''error_analysis'', finding_count = 2,
          findings =
            [\<lparr>category = ''error_cluster'', source = ''A'', frequency = 2,
                first_seen = ''1'', last_seen = ''2'', sample_messages = ['''', ''''],
                element_id = ''syslog:''\<rparr>,
             \<lparr>category = ''error_cluster'', source = ''B'', frequency = 1,
                first_seen = ''3'', last_seen = ''3'', sample_messages = [''''],
                element_id = ''syslog:''\<rparr>],
          params_echo = [(''hours'', PInt 24), (''source'', PNone), (''limit'', PInt 100)],
          total_errors = 3\<rparr>"
  by code_simp

text \<open>
  C8. When the syslog query returns, \<open>run\<close> returns one finding per source that occurs
  among the fetched records (a record without a source counts under \<open>unknown\<close>), the
  findings in descending order of frequency. The finding of a source has the number of
  the records with that source as its frequency, the least of their timestamps as
  \<open>first_seen\<close>, the greatest as \<open>last_seen\<close>, and the messages of the first three of them,
  so at most three, as samples. For the three records of the specification's example
  (two from source \<open>A\<close>, one from \<open>B\<close>) there are exactly two findings, the first for \<open>A\<close>
  with frequency 2.
\<close>

theorem error_clusters_by_source:
  assumes ok: "client ''syslog''
                 (''level=0'' @
                    (if truthy (dict_get_default params ''source'' PNone)
                     then ''^sourceLIKE'' @ py_str (dict_get_default params ''source'' PNone)
                     else ''''))
                 [''sys_id'', ''message'', ''source'', ''level'', ''sys_created_on'']
                 (dict_get_default params ''limit'' (PInt 100)) (Some ''sys_created_on'')
               = Inr res"
  shows "\<exists>r. error_analysis_run client params = Inr r
     \<and> finding_count r = length (findings r)
     \<and> distinct (map source (findings r))
     \<and> set (map source (findings r))
         = (\<lambda>l. dict_get_default l ''source'' ''unknown'') ` set (records res)
     \<and> sorted_wrt (\<lambda>f g. frequency f \<ge> frequency g) (findings r)
     \<and> (\<forall>f\<in>set (findings r).
           (let es = filter (\<lambda>l. dict_get_default l ''source'' ''unknown'' = source f)
                       (records res);
                stamps = map (\<lambda>e. dict_get_default e ''sys_created_on'' '''') es
            in es \<noteq> []
               \<and> frequency f = length es
               \<and> first_seen f = Min (set stamps)
               \<and> last_seen f = Max (set stamps)
               \<and> sample_messages f = map (\<lambda>e. dict_get_default e ''message'' '''') (take 3 es)
               \<and> length (sample_messages f) \<le> 3))"
proof -
  let ?key = "\<lambda>l::snow_record. dict_get_default l ''source'' ''unknown''"
  let ?logs = "records res"
  let ?cl = "group_by ?key ?logs"
  let ?scl = "sort_key (\<lambda>x. - int (length (snd x))) ?cl"
  let ?R = "\<lambda>c f. error_cluster_finding (fst c) (snd c) = Inr f"
  have members: "snd c = filter (\<lambda>l. ?key l = fst c) ?logs \<and> snd c \<noteq> []" if "c \<in> set ?scl" for c
  proof -
    from that have "(fst c, snd c) \<in> set ?cl" by simp
    then show ?thesis unfolding group_by_member .
  qed
  then have "\<forall>c\<in>set ?scl. snd c \<noteq> []" by blast
  from error_cluster_findings_total [OF this] obtain fs where
    fs: "error_cluster_findings ?scl = Inr fs" and rel: "list_all2 ?R ?scl fs"
    by blast
  let ?r = "\<lparr>investigation = ''error_analysis'', finding_count = length fs, findings = fs,
             params_echo = [(''hours'', dict_get_default params ''hours'' (PInt 24)),
                            (''source'', dict_get_default params ''source'' PNone),
                            (''limit'', dict_get_default params ''limit'' (PInt 100))],
             total_errors = length ?logs\<rparr>"
  have run: "error_analysis_run client params = Inr ?r"
    using ok fs by (simp add: error_analysis_run_def Let_def)
  have src: "map source fs = map fst ?scl"
    and frq: "map frequency fs = map (\<lambda>c. length (snd c)) ?scl"
    using findings_sources [OF rel] by simp_all
  have dist: "distinct (map source fs)"
    unfolding src distinct_fst_sort_key by (rule group_by_distinct)
  have "fst ` set ?cl = ?key ` set ?logs"
  proof (intro set_eqI iffI)
    fix s assume "s \<in> fst ` set ?cl"
    then obtain es where "(s, es) \<in> set ?cl" by auto
    then have "filter (\<lambda>l. ?key l = s) ?logs \<noteq> []" by (auto simp add: group_by_member)
    then obtain l where "l \<in> set ?logs" "?key l = s"
      by (auto simp add: filter_empty_conv)
    then show "s \<in> ?key ` set ?logs" by blast
  next
    fix s assume "s \<in> ?key ` set ?logs"
    then have "filter (\<lambda>l. ?key l = s) ?logs \<noteq> []"
      by (auto simp add: filter_empty_conv)
    then have "(s, filter (\<lambda>l. ?key l = s) ?logs) \<in> set ?cl"
      unfolding group_by_member by simp
    then show "s \<in> fst ` set ?cl" by force
  qed
  then have srcs: "set (map source fs) = ?key ` set ?logs"
    unfolding src by simp
  have "sorted_wrt (\<lambda>a b. a \<ge> b) (map frequency fs)"
    unfolding frq using sorted_by_frequency [of ?cl] by (simp add: sorted_wrt_map)
  then have sorted: "sorted_wrt (\<lambda>f g. frequency f \<ge> frequency g) fs"
    by (simp add: sorted_wrt_map)
  have each: "(let es = filter (\<lambda>l. ?key l = source f) ?logs;
                stamps = map (\<lambda>e. dict_get_default e ''sys_created_on'' '''') es
            in es \<noteq> []
               \<and> frequency f = length es
               \<and> first_seen f = Min (set stamps)
               \<and> last_seen f = Max (set stamps)
               \<and> sample_messages f = map (\<lambda>e. dict_get_default e ''message'' '''') (take 3 es)
               \<and> length (sample_messages f) \<le> 3)"
    if "f \<in> set fs" for f
  proof -
    from findings_origin [OF rel that] obtain c where c: "c \<in> set ?scl" and f: "?R c f"
      by blast
    note flds = error_cluster_finding_fields [OF f]
    from flds have s: "source f = fst c" by simp
    from members [OF c] s have es: "snd c = filter (\<lambda>l. ?key l = source f) ?logs" by simp
    show ?thesis
      using flds unfolding Let_def es [symmetric] by simp
  qed
  show ?thesis
  proof (intro exI conjI)
    show "error_analysis_run client params = Inr ?r"
      by (rule run)
    show "finding_count ?r = length (findings ?r)"
      by simp
    show "distinct (map source (findings ?r))"
      using dist by simp
    show "set (map source (findings ?r)) = ?key ` set ?logs"
      using srcs by simp
    show "sorted_wrt (\<lambda>f g. frequency f \<ge> frequency g) (findings ?r)"
      using sorted by simp
    show "\<forall>f\<in>set (findings ?r).
           (let es = filter (\<lambda>l. ?key l = source f) ?logs;
                stamps = map (\<lambda>e. dict_get_default e ''sys_created_on'' '''') es
            in es \<noteq> []
               \<and> frequency f = length es
               \<and> first_seen f = Min (set stamps)
               \<and> last_seen f = Max (set stamps)
               \<and> sample_messages f = map (\<lambda>e. dict_get_default e ''message'' '''') (take 3 es)
               \<and> length (sample_messages f) \<le> 3)"
      using each by simp
  qed
qed

theorem error_clusters_by_source_witness:
  "\<exists>r. error_analysis_run (fixed_client example_logs) [] = Inr r
      \<and> finding_count r = 2
      \<and> map source (findings r) = [''A'', ''B'']
      \<and> map frequency (findings r) = [2, 1]
      \<and> map first_seen (findings r) = [''1'', ''3'']
      \<and> map last_seen (findings r) = [''2'', ''3'']
      \<and> sorted_wrt (\<lambda>f g. frequency f \<ge> frequency g) (findings r)"
proof -
  from error_clusters_by_source
         [where client = "fixed_client example_logs" and params = "[]", OF fixed_client_answer]
  obtain r where
    r: "error_analysis_run (fixed_client example_logs) [] = Inr r"
    and s: "sorted_wrt (\<lambda>f g. frequency f \<ge> frequency g) (findings r)"
    by auto
  from r have "r = \<lparr>investigation = ''error_analysis'', finding_count = 2,
          findings =
            [\<lparr>category = ''error_cluster'', source = ''A'', frequency = 2,
                first_seen = ''1'', last_seen = ''2'', sample_messages = ['''', ''''],
                element_id = ''syslog:''\<rparr>,
             \<lparr>category = ''error_cluster'', source = ''B'', frequency = 1,
                first_seen = ''3'', last_seen = ''3'', sample_messages = [''''],
                element_id = ''syslog:''\<rparr>],
          params_echo = [(''hours'', PInt 24), (''source'', PNone), (''limit'', PInt 100)],
          total_errors = 3\<rparr>"
    by (simp add: run_example_logs)
  with r s show ?thesis
    by (intro exI [of _ r]) simp
qed

end
